theory Spec2Isabelle
  imports Complex_Main "HOL-Library.Char_ord" "HOL-Library.List_Lexorder" "HOL-Library.Multiset"
begin

section \<open>JavaScript values read by server.js\<close>

text \<open>
  A JavaScript number is a finite value, NaN or one of the two infinities. Finite values
  are modelled as reals: the rounding of IEEE doubles is left out of the model.
\<close>

datatype jsnum = Fin real | NaN | PosInf | NegInf

text \<open>
  The values a JSON body or a seed file can hold in a field that the server converts
  with \<^verbatim>\<open>Number\<close>: a missing property, null, a boolean, a number or a string.
\<close>

datatype jsval = JUndefined | JNull | JBool bool | JNum jsnum | JStr string

text \<open>Truthiness, as \<^verbatim>\<open>||\<close>, \<^verbatim>\<open>!\<close> and \<^verbatim>\<open>if\<close> read it.\<close>

fun truthy :: "jsval \<Rightarrow> bool" where
  "truthy JUndefined = False"
| "truthy JNull = False"
| "truthy (JBool b) = b"
| "truthy (JNum (Fin x)) = (x \<noteq> 0)"
| "truthy (JNum NaN) = False"
| "truthy (JNum PosInf) = True"
| "truthy (JNum NegInf) = True"
| "truthy (JStr s) = (s \<noteq> [])"

definition js_or :: "jsval \<Rightarrow> jsval \<Rightarrow> jsval" where
  "js_or a b = (if truthy a then a else b)"

subsection \<open>Number applied to a string\<close>

text \<open>
  ECMAScript's StringToNumber on ASCII text: white space is trimmed, the empty string
  is 0, then a hexadecimal, octal or binary literal without sign, or an optionally
  signed \<^verbatim>\<open>Infinity\<close> or decimal literal with optional fraction and exponent;
  anything else is NaN. The result is the exact value of the literal: JavaScript rounds
  it to the nearest double, which is Infinity for a literal too large and 0 for one too
  small. The theorems below that speak of the number of a text take it as a hypothesis
  (\<open>StringToNumber s = Fin x\<close>) and hold for the rounded number as well.
\<close>

definition is_ws :: "char \<Rightarrow> bool" where
  "is_ws c = (c \<in> set [CHR 0x20, CHR 0x09, CHR 0x0A, CHR 0x0B, CHR 0x0C, CHR 0x0D])"

definition trim :: "string \<Rightarrow> string" where
  "trim s = rev (dropWhile is_ws (rev (dropWhile is_ws s)))"

definition digit_of :: "nat \<Rightarrow> char \<Rightarrow> nat option" where
  "digit_of radix c =
     (let n = (of_char c :: nat);
          d = (if 48 \<le> n \<and> n \<le> 57 then n - 48
               else if 97 \<le> n \<and> n \<le> 102 then n - 87
               else if 65 \<le> n \<and> n \<le> 70 then n - 55
               else 16)
      in if d < radix then Some d else None)"

definition is_digit :: "nat \<Rightarrow> char \<Rightarrow> bool" where
  "is_digit radix c = (digit_of radix c \<noteq> None)"

definition digits_value :: "nat \<Rightarrow> string \<Rightarrow> nat" where
  "digits_value radix ds =
     foldl (\<lambda>acc c. acc * radix + (case digit_of radix c of Some d \<Rightarrow> d | None \<Rightarrow> 0)) 0 ds"

definition radix_literal :: "nat \<Rightarrow> string \<Rightarrow> jsnum" where
  "radix_literal radix ds =
     (if ds \<noteq> [] \<and> list_all (is_digit radix) ds then Fin (real (digits_value radix ds))
      else NaN)"

definition exponent_part :: "string \<Rightarrow> int option" where
  "exponent_part s =
     (case s of
        [] \<Rightarrow> Some 0
      | c # t \<Rightarrow>
          if c = CHR ''e'' \<or> c = CHR ''E'' then
            (let neg = (case t of [] \<Rightarrow> False | d # u \<Rightarrow> d = CHR ''-'');
                 ds = (case t of [] \<Rightarrow> []
                       | d # u \<Rightarrow> if d = CHR ''-'' \<or> d = CHR ''+'' then u else t)
             in if ds \<noteq> [] \<and> list_all (is_digit 10) ds
                then Some ((if neg then - 1 else 1) * int (digits_value 10 ds))
                else None)
          else None)"

definition decimal_literal :: "string \<Rightarrow> real option" where
  "decimal_literal s =
     (let ip = takeWhile (is_digit 10) s;
          r1 = dropWhile (is_digit 10) s;
          fp = (case r1 of [] \<Rightarrow> []
                | c # t \<Rightarrow> if c = CHR ''.'' then takeWhile (is_digit 10) t else []);
          r2 = (case r1 of [] \<Rightarrow> []
                | c # t \<Rightarrow> if c = CHR ''.'' then dropWhile (is_digit 10) t else r1)
      in if ip = [] \<and> fp = [] then None
         else (case exponent_part r2 of
                 None \<Rightarrow> None
               | Some e \<Rightarrow>
                   Some ((real (digits_value 10 ip) + real (digits_value 10 fp) / 10 ^ length fp)
                         * (if 0 \<le> e then 10 ^ nat e else 1 / 10 ^ nat (- e)))))"

definition signed_literal :: "string \<Rightarrow> jsnum" where
  "signed_literal s =
     (let neg = (case s of [] \<Rightarrow> False | c # t \<Rightarrow> c = CHR ''-'');
          body = (case s of [] \<Rightarrow> []
                  | c # t \<Rightarrow> if c = CHR ''-'' \<or> c = CHR ''+'' then t else s)
      in if body = ''Infinity'' then (if neg then NegInf else PosInf)
         else (case decimal_literal body of
                 None \<Rightarrow> NaN
               | Some v \<Rightarrow> Fin (if neg then - v else v)))"

definition StringToNumber :: "string \<Rightarrow> jsnum" where
  "StringToNumber str =
     (let s = trim str in
      if s = [] then Fin 0
      else if take 2 s = ''0x'' \<or> take 2 s = ''0X'' then radix_literal 16 (drop 2 s)
      else if take 2 s = ''0o'' \<or> take 2 s = ''0O'' then radix_literal 8 (drop 2 s)
      else if take 2 s = ''0b'' \<or> take 2 s = ''0B'' then radix_literal 2 (drop 2 s)
      else signed_literal s)"

fun Number :: "jsval \<Rightarrow> jsnum" where
  "Number JUndefined = NaN"
| "Number JNull = Fin 0"
| "Number (JBool b) = Fin (if b then 1 else 0)"
| "Number (JNum n) = n"
| "Number (JStr s) = StringToNumber s"

subsection \<open>Helpers (server.js, lines 102-112)\<close>

text \<open>
  \<^verbatim>\<open>sanitizeNumber(n, fallback = 0)\<close>: the number when \<^verbatim>\<open>Number.isFinite\<close>, the
  fallback otherwise. The fallback is a number at every call but one.
\<close>

definition sanitizeNumber :: "jsval \<Rightarrow> real \<Rightarrow> real" where
  "sanitizeNumber n fallback = (case Number n of Fin x \<Rightarrow> x | _ \<Rightarrow> fallback)"

text \<open>The one call with a null fallback, \<^verbatim>\<open>sanitizeNumber(w.price, null)\<close>;
  \<open>None\<close> is null.\<close>

definition sanitizeNumber_null :: "jsval \<Rightarrow> real option" where
  "sanitizeNumber_null n = (case Number n of Fin x \<Rightarrow> Some x | _ \<Rightarrow> None)"


section \<open>The database (server.js, lines 42-99)\<close>

text \<open>
  Instants are milliseconds since the epoch; the text formats of \<^verbatim>\<open>datetime('now')\<close>
  and \<^verbatim>\<open>toISOString()\<close> are not modelled. One request or one run of the refresh
  reads the clock as a single instant \<open>now\<close>.
\<close>

type_synonym time = int

text \<open>
  A value handed to a prepared statement: one that better-sqlite3 cannot bind (a boolean,
  an object, a named parameter whose key the object lacks), NULL (null, and undefined,
  which is bound as NULL), or a value of the column's storage class. Column affinity
  conversions are not modelled.
\<close>

datatype 'a param = Unbound | Null | Val 'a

fun column :: "'a param \<Rightarrow> 'a option" where
  "column (Val x) = Some x"
| "column Null = None"
| "column Unbound = None"

text \<open>The named parameters of \<^verbatim>\<open>upsertWine\<close>.\<close>

record wine_params =
  p_external_id :: "string param"
  p_name :: "string param"
  p_winery :: "string param"
  p_aoc :: "string param"
  p_vintage :: "real param"
  p_vivino_rating :: "real param"
  p_rating_count :: "real param"
  p_price :: "real param"
  p_last_source_update :: "time param"

text \<open>A row of table \<^verbatim>\<open>wines\<close>; \<open>None\<close> is SQL NULL in a nullable column.\<close>

record wine =
  id' :: int
  external_id :: "string option"
  name :: string
  winery :: "string option"
  aoc :: string
  vintage :: "real option"
  vivino_rating :: real
  rating_count :: "real option"
  price :: "real option"
  last_source_update :: "time option"
  created_at :: time
  updated_at :: time

text \<open>A row of table \<^verbatim>\<open>admin_overrides\<close>, keyed by its primary key \<^verbatim>\<open>wine_id\<close>.\<close>

record override =
  o_adjustment_pct :: real
  o_updated_at :: time

text \<open>
  The three tables. \<open>wines\<close> lists the rows in rowid order; \<open>meta\<close> maps a key to
  its value, which for the only key in use, \<^verbatim>\<open>last_refresh\<close>, is an instant.
\<close>

record db =
  wines :: "wine list"
  admin_overrides :: "int \<Rightarrow> override option"
  meta :: "string \<Rightarrow> time option"

datatype sql_error = BindError | NotNullViolation | StatementError

subsection \<open>Prepared statements\<close>

definition bindable :: "wine_params \<Rightarrow> bool" where
  "bindable p =
     (p_external_id p \<noteq> Unbound \<and> p_name p \<noteq> Unbound \<and> p_winery p \<noteq> Unbound \<and>
      p_aoc p \<noteq> Unbound \<and> p_vintage p \<noteq> Unbound \<and> p_vivino_rating p \<noteq> Unbound \<and>
      p_rating_count p \<noteq> Unbound \<and> p_price p \<noteq> Unbound \<and>
      p_last_source_update p \<noteq> Unbound)"

text \<open>The rowid SQLite gives a new row: one more than the largest in use, 1 in an
  empty table.\<close>

definition next_rowid :: "wine list \<Rightarrow> int" where
  "next_rowid ws = (case ws of [] \<Rightarrow> 1 | w # r \<Rightarrow> fold max (map id' r) (id' w) + 1)"

text \<open>\<^verbatim>\<open>ON CONFLICT(external_id)\<close>: a row holds the same non-null external_id.\<close>

definition conflicts :: "string option \<Rightarrow> wine list \<Rightarrow> bool" where
  "conflicts e ws = (e \<noteq> None \<and> list_ex (\<lambda>w. external_id w = e) ws)"

text \<open>\<^verbatim>\<open>DO UPDATE SET ...\<close> on the conflicting row: the eight source columns and
  \<^verbatim>\<open>updated_at\<close>; \<^verbatim>\<open>id\<close>, \<^verbatim>\<open>external_id\<close> and \<^verbatim>\<open>created_at\<close> stay.\<close>

definition do_update :: "time \<Rightarrow> wine_params \<Rightarrow> string \<Rightarrow> string \<Rightarrow> real \<Rightarrow> wine \<Rightarrow> wine" where
  "do_update now p n a v w =
     (if external_id w = column (p_external_id p) then
        w\<lparr>name := n, winery := column (p_winery p), aoc := a, vintage := column (p_vintage p),
          vivino_rating := v, rating_count := column (p_rating_count p),
          price := column (p_price p),
          last_source_update := column (p_last_source_update p), updated_at := now\<rparr>
      else w)"

definition new_wine :: "time \<Rightarrow> wine_params \<Rightarrow> string \<Rightarrow> string \<Rightarrow> real \<Rightarrow> int \<Rightarrow> wine" where
  "new_wine now p n a v i =
     \<lparr>id' = i, external_id = column (p_external_id p), name = n, winery = column (p_winery p),
      aoc = a, vintage = column (p_vintage p), vivino_rating = v,
      rating_count = column (p_rating_count p), price = column (p_price p),
      last_source_update = column (p_last_source_update p), created_at = now,
      updated_at = now\<rparr>"

definition upsert_rows :: "time \<Rightarrow> wine_params \<Rightarrow> string \<Rightarrow> string \<Rightarrow> real \<Rightarrow> wine list \<Rightarrow> wine list" where
  "upsert_rows now p n a v ws =
     (if conflicts (column (p_external_id p)) ws then map (do_update now p n a v) ws
      else ws @ [new_wine now p n a v (next_rowid ws)])"

text \<open>
  \<^verbatim>\<open>upsertWine.run(w)\<close> (lines 75-88). It throws when a parameter cannot be bound and
  when \<^verbatim>\<open>name\<close>, \<^verbatim>\<open>aoc\<close> or \<^verbatim>\<open>vivino_rating\<close> is NULL (the columns are NOT NULL);
  otherwise it inserts a row or updates the conflicting one.
\<close>

definition upsertWine :: "time \<Rightarrow> wine_params \<Rightarrow> db \<Rightarrow> sql_error + db" where
  "upsertWine now p d =
     (if \<not> bindable p then Inl BindError
      else (case (p_name p, p_aoc p, p_vivino_rating p) of
              (Val n, Val a, Val v) \<Rightarrow> Inr (d\<lparr>wines := upsert_rows now p n a v (wines d)\<rparr>)
            | _ \<Rightarrow> Inl NotNullViolation))"

text \<open>\<^verbatim>\<open>for (const w of rows) upsertWine.run(w)\<close>: the loop stops at the first throw.\<close>

fun run_upserts :: "time \<Rightarrow> wine_params list \<Rightarrow> db \<Rightarrow> sql_error + db" where
  "run_upserts now [] d = Inr d"
| "run_upserts now (p # ps) d =
     (case upsertWine now p d of Inl e \<Rightarrow> Inl e | Inr d' \<Rightarrow> run_upserts now ps d')"

definition getWineById :: "real \<Rightarrow> db \<Rightarrow> wine option" where
  "getWineById i d = List.find (\<lambda>w. real_of_int (id' w) = i) (wines d)"

definition upsertOverride :: "time \<Rightarrow> int \<Rightarrow> real \<Rightarrow> db \<Rightarrow> db" where
  "upsertOverride now i pct d =
     d\<lparr>admin_overrides :=
         (admin_overrides d)(i \<mapsto> \<lparr>o_adjustment_pct = pct, o_updated_at = now\<rparr>)\<rparr>"

definition setMeta :: "string \<Rightarrow> time \<Rightarrow> db \<Rightarrow> db" where
  "setMeta k v d = d\<lparr>meta := (meta d)(k \<mapsto> v)\<rparr>"

definition getMeta :: "string \<Rightarrow> db \<Rightarrow> time option" where
  "getMeta k d = meta d k"


section \<open>The adjusted rating\<close>

text \<open>
  A row of the ranking query: the columns \<^verbatim>\<open>w.*\<close> of the wine, the override's
  \<^verbatim>\<open>adjustment_pct\<close> (0 when the wine has none) and the computed
  \<^verbatim>\<open>adjusted_rating\<close>.
\<close>

record ranked =
  wine_cols :: wine
  adjustment_pct :: real
  adjusted_rating :: real

text \<open>The SQL expression of lines 247 and 280, on \<^verbatim>\<open>w.vivino_rating\<close> and
  \<^verbatim>\<open>IFNULL(o.adjustment_pct, 0)\<close>, in exact arithmetic; \<open>computed_rating\<close> below is the
  same expression with the rounding of the doubles.\<close>

definition sql_adjusted_rating :: "real \<Rightarrow> real \<Rightarrow> real" where
  "sql_adjusted_rating rating pct =
     rating * (1 + (if pct > 25 then 25 else if pct < - 25 then - 25 else pct) / 100)"

text \<open>\<^verbatim>\<open>adjustedRating(row)\<close> (lines 107-112), on a row of the query.\<close>

definition adjustedRating :: "ranked \<Rightarrow> real" where
  "adjustedRating row =
     (let adj = sanitizeNumber (js_or (JNum (Fin (adjustment_pct row))) (JNum (Fin 0))) 0;
          base = sanitizeNumber (js_or (JNum (Fin (vivino_rating (wine_cols row)))) (JNum (Fin 0))) 0;
          factor = 1 + max (- 25) (min 25 adj) / 100
      in base * factor)"

text \<open>\<^verbatim>\<open>FROM wines w LEFT JOIN admin_overrides o ON o.wine_id = w.id\<close>, with the two
  computed columns.\<close>

definition join_override :: "db \<Rightarrow> wine \<Rightarrow> ranked" where
  "join_override d w =
     (let pct = (case admin_overrides d (id' w) of None \<Rightarrow> 0 | Some ov \<Rightarrow> o_adjustment_pct ov)
      in \<lparr>wine_cols = w, adjustment_pct = pct,
          adjusted_rating = sql_adjusted_rating (vivino_rating w) pct\<rparr>)"

section \<open>GET /api/aocs (lines 235-238)\<close>

text \<open>\<^verbatim>\<open>SELECT aoc, COUNT(*) AS n FROM wines GROUP BY aoc ORDER BY aoc\<close>: one row per
  distinct appellation, in the byte order of the text.\<close>

definition aoc_rows :: "db \<Rightarrow> (string \<times> nat) list" where
  "aoc_rows d =
     map (\<lambda>a. (a, length (filter (\<lambda>w. aoc w = a) (wines d))))
         (sort (remdups (map aoc (wines d))))"

text \<open>The response: \<^verbatim>\<open>res.json(rows.map(r => r.aoc))\<close>.\<close>

definition api_aocs :: "db \<Rightarrow> string list" where
  "api_aocs d = map fst (aoc_rows d)"

section \<open>GET /api/wines (lines 241-266)\<close>

text \<open>The query string: each parameter is absent or a string.\<close>

record wines_query =
  rq_aoc :: "string option"
  rq_q :: "string option"
  rq_minRating :: "string option"
  rq_maxRating :: "string option"
  rq_limit :: "string option"
  rq_offset :: "string option"
  rq_all :: "string option"

text \<open>The value of a parameter when it is truthy: a string that is not empty.\<close>

definition given :: "string option \<Rightarrow> string option" where
  "given x = (case x of None \<Rightarrow> None | Some s \<Rightarrow> if s = [] then None else Some s)"

text \<open>SQLite's \<^verbatim>\<open>LIKE\<close>: \<^verbatim>\<open>%\<close> matches any run of characters, \<^verbatim>\<open>_\<close> any one
  character, and ASCII letters match without regard to case.\<close>

definition lower :: "char \<Rightarrow> char" where
  "lower c = (let n = (of_char c :: nat) in if 65 \<le> n \<and> n \<le> 90 then char_of (n + 32) else c)"

fun like :: "string \<Rightarrow> string \<Rightarrow> bool" where
  "like [] [] = True"
| "like [] (c # cs) = False"
| "like (p # ps) [] = (p = CHR ''%'' \<and> like ps [])"
| "like (p # ps) (c # cs) =
     (if p = CHR ''%'' then like ps (c # cs) \<or> like (p # ps) cs
      else (p = CHR ''_'' \<or> lower p = lower c) \<and> like ps cs)"

text \<open>\<^verbatim>\<open>(w.name LIKE ? OR w.winery LIKE ?)\<close> with both parameters \<^verbatim>\<open>%q%\<close>; a NULL
  winery matches nothing.\<close>

definition matches_q :: "string \<Rightarrow> ranked \<Rightarrow> bool" where
  "matches_q q r =
     (let pat = ''%'' @ q @ ''%'' in
      like pat (name (wine_cols r)) \<or>
      (case winery (wine_cols r) of None \<Rightarrow> False | Some s \<Rightarrow> like pat s))"

text \<open>\<^verbatim>\<open>adjusted_rating >= ?\<close> and \<^verbatim>\<open>adjusted_rating <= ?\<close> with the bound parameter
  \<^verbatim>\<open>Number(minRating)\<close>: NaN is bound as NULL, and a comparison with NULL selects
  no row.\<close>

fun rating_ge :: "real \<Rightarrow> jsnum \<Rightarrow> bool" where
  "rating_ge x (Fin b) = (x \<ge> b)"
| "rating_ge x NaN = False"
| "rating_ge x PosInf = False"
| "rating_ge x NegInf = True"

fun rating_le :: "real \<Rightarrow> jsnum \<Rightarrow> bool" where
  "rating_le x (Fin b) = (x \<le> b)"
| "rating_le x NaN = False"
| "rating_le x PosInf = True"
| "rating_le x NegInf = False"

text \<open>The \<^verbatim>\<open>WHERE\<close> clause as the handler composes it.\<close>

definition selected :: "wines_query \<Rightarrow> ranked \<Rightarrow> bool" where
  "selected rq r =
     ((case given (rq_aoc rq) of None \<Rightarrow> True | Some a \<Rightarrow> aoc (wine_cols r) = a) \<and>
      (case given (rq_q rq) of None \<Rightarrow> True | Some q \<Rightarrow> matches_q q r) \<and>
      (case given (rq_minRating rq) of None \<Rightarrow> True
       | Some m \<Rightarrow> rating_ge (adjusted_rating r) (StringToNumber m)) \<and>
      (case given (rq_maxRating rq) of None \<Rightarrow> True
       | Some m \<Rightarrow> rating_le (adjusted_rating r) (StringToNumber m)))"

text \<open>
  \<^verbatim>\<open>ORDER BY adjusted_rating DESC, rating_count DESC, price ASC NULLS LAST\<close>:
  \<open>ranks_before a b\<close> says that \<open>a\<close> may stand before \<open>b\<close>. In a descending
  column SQLite puts NULL after every value.
\<close>

fun desc_before :: "real option \<Rightarrow> real option \<Rightarrow> bool" where
  "desc_before (Some x) (Some y) = (x > y)"
| "desc_before (Some x) None = True"
| "desc_before None y = False"

fun asc_nulls_last :: "real option \<Rightarrow> real option \<Rightarrow> bool" where
  "asc_nulls_last (Some x) (Some y) = (x \<le> y)"
| "asc_nulls_last x None = True"
| "asc_nulls_last None (Some y) = False"

definition ranks_before :: "ranked \<Rightarrow> ranked \<Rightarrow> bool" where
  "ranks_before a b =
     (adjusted_rating a > adjusted_rating b \<or>
      (adjusted_rating a = adjusted_rating b \<and>
       (desc_before (rating_count (wine_cols a)) (rating_count (wine_cols b)) \<or>
        (rating_count (wine_cols a) = rating_count (wine_cols b) \<and>
         asc_nulls_last (price (wine_cols a)) (price (wine_cols b))))))"

text \<open>The sort, as a stable insertion sort over the rows in rowid order: SQL leaves the
  order of rows that agree on all three keys open, and the model keeps them in table
  order.\<close>

fun insert_ranked :: "ranked \<Rightarrow> ranked list \<Rightarrow> ranked list" where
  "insert_ranked r [] = [r]"
| "insert_ranked r (x # xs) = (if ranks_before r x then r # x # xs else x # insert_ranked r xs)"

definition order_by :: "ranked list \<Rightarrow> ranked list" where
  "order_by rs = foldr insert_ranked rs []"

text \<open>
  \<^verbatim>\<open>LIMIT ${lim} OFFSET ${off}\<close>: the number is written into the statement, which
  SQLite accepts when it is an integer of 64 bits; NaN, an infinity, a fraction or a
  larger number makes \<^verbatim>\<open>db.prepare\<close> throw. (Beyond 2^53 JavaScript prints rounded
  digits; the model keeps the number itself.)
\<close>

fun sql_integer :: "jsnum \<Rightarrow> int option" where
  "sql_integer (Fin x) =
     (if x = real_of_int \<lfloor>x\<rfloor> \<and> - (2 ^ 63) \<le> \<lfloor>x\<rfloor> \<and> \<lfloor>x\<rfloor> < 2 ^ 63 then Some \<lfloor>x\<rfloor> else None)"
| "sql_integer NaN = None"
| "sql_integer PosInf = None"
| "sql_integer NegInf = None"

text \<open>A negative limit is no limit, a negative offset is 0.\<close>

definition limit_offset :: "int \<Rightarrow> int \<Rightarrow> 'a list \<Rightarrow> 'a list" where
  "limit_offset l off xs = (let ys = drop (nat off) xs in if l < 0 then ys else take (nat l) ys)"

text \<open>\<^verbatim>\<open>all ? null : Number(limit || (aoc ? 20 : 100))\<close>; \<open>None\<close> is null.\<close>

definition query_lim :: "wines_query \<Rightarrow> jsnum option" where
  "query_lim rq =
     (if given (rq_all rq) \<noteq> None then None
      else Some (case given (rq_limit rq) of
                   Some s \<Rightarrow> StringToNumber s
                 | None \<Rightarrow> Fin (if given (rq_aoc rq) \<noteq> None then 20 else 100)))"

definition query_off :: "wines_query \<Rightarrow> jsnum" where
  "query_off rq = (case given (rq_offset rq) of Some s \<Rightarrow> StringToNumber s | None \<Rightarrow> Fin 0)"

text \<open>All rows that match, in ranking order: the statement without its \<^verbatim>\<open>LIMIT\<close>.\<close>

definition matching :: "wines_query \<Rightarrow> db \<Rightarrow> ranked list" where
  "matching rq d = order_by (filter (selected rq) (map (join_override d) (wines d)))"

text \<open>The handler: the rows of the response, or the error \<^verbatim>\<open>db.prepare\<close> throws.\<close>

definition api_wines :: "wines_query \<Rightarrow> db \<Rightarrow> sql_error + ranked list" where
  "api_wines rq d =
     (let lim = query_lim rq; off = query_off rq in
      case lim of
        None \<Rightarrow> Inr (matching rq d)
      | Some n \<Rightarrow>
          if truthy (JNum n) then
            (case (sql_integer n, sql_integer off) of
               (Some l, Some f) \<Rightarrow> Inr (limit_offset l f (matching rq d))
             | _ \<Rightarrow> Inl StatementError)
          else Inr (matching rq d))"

subsection \<open>The query on doubles\<close>

text \<open>
  SQLite evaluates \<^verbatim>\<open>adjusted_rating\<close> on IEEE doubles: the division by \<^verbatim>\<open>100.0\<close>, the
  sum and the product each give their exact result rounded to a double. The definitions
  of this subsection take that rounding as the parameter \<open>rnd\<close> and are otherwise those
  above; with the identity for \<open>rnd\<close> they are the ones above, whose arithmetic is exact.
  The clamp compares and selects, and rounds nothing. A product beyond the largest
  double, which SQLite gives as an infinity, has no counterpart here: \<open>rnd\<close> gives a real.
\<close>

definition computed_rating :: "(real \<Rightarrow> real) \<Rightarrow> real \<Rightarrow> real \<Rightarrow> real" where
  "computed_rating rnd rating pct =
     rnd (rating * rnd (1 + rnd ((if pct > 25 then 25 else if pct < - 25 then - 25 else pct) / 100)))"

definition join_override_fl :: "(real \<Rightarrow> real) \<Rightarrow> db \<Rightarrow> wine \<Rightarrow> ranked" where
  "join_override_fl rnd d w =
     (let pct = (case admin_overrides d (id' w) of None \<Rightarrow> 0 | Some ov \<Rightarrow> o_adjustment_pct ov)
      in \<lparr>wine_cols = w, adjustment_pct = pct,
          adjusted_rating = computed_rating rnd (vivino_rating w) pct\<rparr>)"

definition matching_fl :: "(real \<Rightarrow> real) \<Rightarrow> wines_query \<Rightarrow> db \<Rightarrow> ranked list" where
  "matching_fl rnd rq d =
     order_by (filter (selected rq) (map (join_override_fl rnd d) (wines d)))"

definition api_wines_fl :: "(real \<Rightarrow> real) \<Rightarrow> wines_query \<Rightarrow> db \<Rightarrow> sql_error + ranked list" where
  "api_wines_fl rnd rq d =
     (let lim = query_lim rq; off = query_off rq in
      case lim of
        None \<Rightarrow> Inr (matching_fl rnd rq d)
      | Some n \<Rightarrow>
          if truthy (JNum n) then
            (case (sql_integer n, sql_integer off) of
               (Some l, Some f) \<Rightarrow> Inr (limit_offset l f (matching_fl rnd rq d))
             | _ \<Rightarrow> Inl StatementError)
          else Inr (matching_fl rnd rq d))"



section \<open>POST /api/admin/override (lines 269-284)\<close>

text \<open>The JSON body: \<^verbatim>\<open>wine_id\<close> is a number or absent (the page sends the row's id),
  \<^verbatim>\<open>adjustment_pct\<close> any value. The caller has passed \<^verbatim>\<open>basicAuth\<close>.\<close>

record override_body =
  body_wine_id :: "real option"
  body_adjustment_pct :: jsval

text \<open>A response: an error status with its message, or the JSON payload of a 200.\<close>

datatype 'a response = Failure nat string | Success 'a

fun status :: "'a response \<Rightarrow> nat" where
  "status (Failure code msg) = code"
| "status (Success x) = 200"

definition admin_override :: "time \<Rightarrow> override_body \<Rightarrow> db \<Rightarrow> ranked response \<times> db" where
  "admin_override now body d =
     (case body_wine_id body of
        None \<Rightarrow> (Failure 400 ''wine_id and adjustment_pct required'', d)
      | Some wine_id \<Rightarrow>
          if wine_id = 0 \<or> body_adjustment_pct body = JUndefined
          then (Failure 400 ''wine_id and adjustment_pct required'', d)
          else (case Number (body_adjustment_pct body) of
                  Fin pct \<Rightarrow>
                    if pct < - 25 \<or> pct > 25
                    then (Failure 400 ''adjustment_pct must be between -25 and 25'', d)
                    else (case getWineById wine_id d of
                            None \<Rightarrow> (Failure 404 ''Wine not found'', d)
                          | Some w \<Rightarrow>
                              (let d' = upsertOverride now (id' w) pct d
                               in (Success (join_override d' w), d')))
                | _ \<Rightarrow> (Failure 400 ''adjustment_pct must be a number'', d)))"

section \<open>POST /api/admin/import (lines 287-336)\<close>

text \<open>
  The handler from \<^verbatim>\<open>items\<close> on: the objects the mapping of lines 297-320 builds out
  of the parsed file, each stamped with the time of the import. The transaction rolls
  back when a statement throws, and \<^verbatim>\<open>last_refresh\<close> is then not written.
\<close>

definition stamp :: "time \<Rightarrow> wine_params \<Rightarrow> wine_params" where
  "stamp now p = p\<lparr>p_last_source_update := Val now\<rparr>"

definition admin_import :: "time \<Rightarrow> wine_params list \<Rightarrow> db \<Rightarrow> nat response \<times> db" where
  "admin_import now items d =
     (case run_upserts now (map (stamp now) items) d of
        Inl e \<Rightarrow> (Failure 500 ''Import failed'', d)
      | Inr d' \<Rightarrow> (Success (length items), setMeta ''last_refresh'' now d'))"

section \<open>The scheduled refresh (lines 163-212)\<close>

text \<open>An element of the seed file's array, as \<^verbatim>\<open>refreshVivinoData\<close> reads it: five
  properties are bound as they are (a property that the element lacks is undefined and
  bound as NULL), three go through \<^verbatim>\<open>sanitizeNumber\<close>.\<close>

record seed_record =
  s_external_id :: "string param"
  s_name :: "string param"
  s_winery :: "string param"
  s_aoc :: "string param"
  s_vintage :: "real param"
  s_vivino_rating :: jsval
  s_rating_count :: jsval
  s_price :: jsval

text \<open>The file at \<^verbatim>\<open>DATA_SEED\<close>: missing, not readable as an array of objects, or an
  array.\<close>

datatype seed_file = NoFile | Unreadable | Seed "seed_record list"

definition refresh_item :: "time \<Rightarrow> seed_record \<Rightarrow> wine_params" where
  "refresh_item now w =
     \<lparr>p_external_id = s_external_id w, p_name = s_name w, p_winery = s_winery w,
      p_aoc = s_aoc w, p_vintage = s_vintage w,
      p_vivino_rating = Val (sanitizeNumber (s_vivino_rating w) 0),
      p_rating_count = Val (sanitizeNumber (s_rating_count w) 0),
      p_price = (case sanitizeNumber_null (s_price w) of None \<Rightarrow> Null | Some x \<Rightarrow> Val x),
      p_last_source_update = Val now\<rparr>"

text \<open>\<^verbatim>\<open>refreshVivinoData()\<close>: every throw is caught and logged, the transaction rolled
  back.\<close>

definition refreshVivinoData :: "time \<Rightarrow> seed_file \<Rightarrow> db \<Rightarrow> db" where
  "refreshVivinoData now file d =
     (case file of
        NoFile \<Rightarrow> d
      | Unreadable \<Rightarrow> d
      | Seed arr \<Rightarrow>
          (case run_upserts now (map (refresh_item now) arr) d of
             Inl e \<Rightarrow> d
           | Inr d' \<Rightarrow> setMeta ''last_refresh'' now d'))"

text \<open>\<^verbatim>\<open>dayjs().diff(lastIso, 'day')\<close>: the whole days between two instants, rounded
  towards zero (the server's UTC offset taken as the same at both).\<close>

definition day_diff :: "time \<Rightarrow> time \<Rightarrow> int" where
  "day_diff now earlier =
     (let ms = now - earlier in if ms < 0 then - ((- ms) div 86400000) else ms div 86400000)"

text \<open>The callback of \<^verbatim>\<open>cron.schedule\<close> (lines 165-179).\<close>

definition refresh_check :: "time \<Rightarrow> seed_file \<Rightarrow> db \<Rightarrow> db" where
  "refresh_check now file d =
     (let daysSince = (case getMeta ''last_refresh'' d of
                         None \<Rightarrow> 9999
                       | Some lastIso \<Rightarrow> day_diff now lastIso)
      in if daysSince \<ge> 75 then refreshVivinoData now file d else d)"

section \<open>The specification's clamp\<close>

text \<open>Section 4.1 of the specification: \<open>clamp\<close> maps any input to the interval
  [-25, 25] by saturating at the bounds.\<close>

definition spec_clamp :: "real \<Rightarrow> real" where
  "spec_clamp pct = (if pct > 25 then 25 else if pct < - 25 then - 25 else pct)"



section \<open>Notions used to state the claims\<close>

text \<open>A wine row without the two instants that every ingestion advances.\<close>

definition strip_times :: "wine \<Rightarrow> wine" where
  "strip_times w = w\<lparr>last_source_update := None, updated_at := 0\<rparr>"

text \<open>The \<^verbatim>\<open>UNIQUE\<close> constraint on \<^verbatim>\<open>external_id\<close>: no two rows share a non-null one.\<close>

definition unique_external_ids :: "db \<Rightarrow> bool" where
  "unique_external_ids d = distinct (filter (\<lambda>e. e \<noteq> None) (map external_id (wines d)))"

subsection \<open>Auxiliary notions of the proofs\<close>

text \<open>The same row before and after an upsert: the columns an update never writes.\<close>

definition same_identity :: "wine \<Rightarrow> wine \<Rightarrow> bool" where
  "same_identity w w' = (id' w' = id' w \<and> external_id w' = external_id w \<and> created_at w' = created_at w)"

text \<open>The parameters that \<^verbatim>\<open>upsertWine\<close> does not throw on, its effect on the table
  for those, and its effect on one row of a table that holds the key already.\<close>

definition accepted :: "wine_params \<Rightarrow> bool" where
  "accepted p = (bindable p \<and> p_name p \<noteq> Null \<and> p_aoc p \<noteq> Null \<and> p_vivino_rating p \<noteq> Null)"

definition apply_params :: "time \<Rightarrow> wine_params \<Rightarrow> wine list \<Rightarrow> wine list" where
  "apply_params now p ws =
     (case (p_name p, p_aoc p, p_vivino_rating p) of
        (Val n, Val a, Val v) \<Rightarrow> upsert_rows now p n a v ws
      | _ \<Rightarrow> ws)"

definition row_update :: "time \<Rightarrow> wine_params \<Rightarrow> wine \<Rightarrow> wine" where
  "row_update now p w =
     (case (p_name p, p_aoc p, p_vivino_rating p) of
        (Val n, Val a, Val v) \<Rightarrow> do_update now p n a v w
      | _ \<Rightarrow> w)"

definition distinct_ids :: "wine list \<Rightarrow> bool" where
  "distinct_ids ws = distinct (filter (\<lambda>e. e \<noteq> None) (map external_id ws))"

section \<open>Example data\<close>

text \<open>The wines A and B of the specification's section 8: the same score and review
  count, A without a price.\<close>

definition wine_A :: wine where
  "wine_A = \<lparr>id' = 1, external_id = Some ''a'', name = ''A'', winery = None, aoc = ''Margaux'',
     vintage = None, vivino_rating = 4.5, rating_count = Some 10, price = None,
     last_source_update = None, created_at = 0, updated_at = 0\<rparr>"

definition wine_B :: wine where
  "wine_B = \<lparr>id' = 2, external_id = Some ''b'', name = ''B'', winery = None, aoc = ''Margaux'',
     vintage = None, vivino_rating = 4.5, rating_count = Some 10, price = Some 20,
     last_source_update = None, created_at = 0, updated_at = 0\<rparr>"

definition db_AB :: db where
  "db_AB = \<lparr>wines = [wine_A, wine_B], admin_overrides = (\<lambda>i. None), meta = (\<lambda>k. None)\<rparr>"

definition no_params :: wines_query where
  "no_params = \<lparr>rq_aoc = None, rq_q = None, rq_minRating = None, rq_maxRating = None,
     rq_limit = None, rq_offset = None, rq_all = None\<rparr>"


definition db_A :: db where
  "db_A = \<lparr>wines = [wine_A], admin_overrides = (\<lambda>i. None), meta = (\<lambda>k. None)\<rparr>"

text \<open>Twenty-one wines of one appellation.\<close>

definition db_21 :: db where
  "db_21 = \<lparr>wines = map (\<lambda>i. wine_A\<lparr>id' := int i\<rparr>) [1..<22],
            admin_overrides = (\<lambda>i. None), meta = (\<lambda>k. None)\<rparr>"

text \<open>The scenario of the specification's section 8: a wine is imported, given an
  override of 10, and imported again under a new name and with a new score.\<close>

definition empty_db :: db where
  "empty_db = \<lparr>wines = [], admin_overrides = (\<lambda>i. None), meta = (\<lambda>k. None)\<rparr>"

definition item_x1 :: wine_params where
  "item_x1 = \<lparr>p_external_id = Val ''x1'', p_name = Val ''W1'', p_winery = Null,
     p_aoc = Val ''Pauillac'', p_vintage = Null, p_vivino_rating = Val 4, p_rating_count = Val 0,
     p_price = Null, p_last_source_update = Null\<rparr>"

definition item_x1_renamed :: wine_params where
  "item_x1_renamed = item_x1\<lparr>p_name := Val ''W1-renamed'', p_vivino_rating := Val 4.2\<rparr>"

definition scenario_db :: db where
  "scenario_db =
     snd (admin_override 200 \<lparr>body_wine_id = Some 1, body_adjustment_pct = JNum (Fin 10)\<rparr>
            (snd (admin_import 100 [item_x1] empty_db)))"

definition seed_x1 :: seed_record where
  "seed_x1 = \<lparr>s_external_id = Val ''x1'', s_name = Val ''W1'', s_winery = Null,
     s_aoc = Val ''Pauillac'', s_vintage = Null, s_vivino_rating = JNum (Fin 4),
     s_rating_count = JUndefined, s_price = JStr ''n/a''\<rparr>"

text \<open>A catalogue refreshed at instant 0.\<close>

definition refreshed_db :: db where
  "refreshed_db = setMeta ''last_refresh'' 0 empty_db"

section \<open>Evaluation and helper lemmas\<close>

lemmas number_defs = StringToNumber_def trim_def is_ws_def signed_literal_def decimal_literal_def
  exponent_part_def is_digit_def digit_of_def digits_value_def radix_literal_def

lemmas query_defs = api_wines_def query_lim_def query_off_def given_def matching_def order_by_def
  selected_def join_override_def sql_adjusted_rating_def ranks_before_def limit_offset_def
  matches_q_def lower_def

lemmas example_defs = wine_A_def wine_B_def db_AB_def no_params_def db_A_def

lemmas ingest_defs = admin_import_def upsertWine_def bindable_def stamp_def upsert_rows_def
  conflicts_def new_wine_def next_rowid_def do_update_def setMeta_def getMeta_def

lemmas scenario_defs = empty_db_def item_x1_def item_x1_renamed_def seed_x1_def refreshed_db_def

lemma set_insert_ranked: "set (insert_ranked r xs) = insert r (set xs)"
  by (induction xs) auto

lemma length_insert_ranked: "length (insert_ranked r xs) = Suc (length xs)"
  by (induction xs) auto

lemma set_order_by: "set (order_by rs) = set rs"
  unfolding order_by_def by (induction rs) (auto simp: set_insert_ranked)

lemma length_order_by: "length (order_by rs) = length rs"
  unfolding order_by_def by (induction rs) (auto simp: length_insert_ranked)

lemma desc_before_total: "\<not> desc_before x y \<Longrightarrow> x \<noteq> y \<Longrightarrow> desc_before y x"
  by (cases x; cases y) auto

lemma desc_before_trans: "desc_before x y \<Longrightarrow> desc_before y z \<Longrightarrow> desc_before x z"
  by (cases x; cases y; cases z) auto

lemma asc_nulls_last_total: "\<not> asc_nulls_last x y \<Longrightarrow> asc_nulls_last y x"
  by (cases x; cases y) auto

lemma asc_nulls_last_trans: "asc_nulls_last x y \<Longrightarrow> asc_nulls_last y z \<Longrightarrow> asc_nulls_last x z"
  by (cases x; cases y; cases z) auto

lemma ranks_before_total: "\<not> ranks_before a b \<Longrightarrow> ranks_before b a"
  unfolding ranks_before_def
  using desc_before_total asc_nulls_last_total by (metis not_less_iff_gr_or_eq)

lemma ranks_before_trans: "ranks_before a b \<Longrightarrow> ranks_before b c \<Longrightarrow> ranks_before a c"
  unfolding ranks_before_def
  by (auto dest: desc_before_trans asc_nulls_last_trans)

lemma sorted_insert_ranked:
  "sorted_wrt ranks_before xs \<Longrightarrow> sorted_wrt ranks_before (insert_ranked r xs)"
proof (induction xs)
  case Nil
  then show ?case by simp
next
  case (Cons x xs)
  show ?case
  proof (cases "ranks_before r x")
    case True
    have "\<forall>y\<in>set xs. ranks_before r y"
      using Cons.prems True ranks_before_trans by auto
    with True Cons.prems show ?thesis by simp
  next
    case False
    then have "ranks_before x r" by (rule ranks_before_total)
    with False Cons show ?thesis by (auto simp: set_insert_ranked)
  qed
qed

lemma sorted_order_by: "sorted_wrt ranks_before (order_by rs)"
  unfolding order_by_def by (induction rs) (auto intro: sorted_insert_ranked)

lemma set_limit_offset: "set (limit_offset l f xs) \<subseteq> set xs"
  unfolding limit_offset_def Let_def
  by (auto dest: in_set_takeD in_set_dropD)

lemma sorted_limit_offset:
  "sorted_wrt P xs \<Longrightarrow> sorted_wrt P (limit_offset l f xs)"
  unfolding limit_offset_def Let_def
  by (auto intro: sorted_wrt_take sorted_wrt_drop)

lemma api_wines_subset: "api_wines rq d = Inr rows \<Longrightarrow> set rows \<subseteq> set (matching rq d)"
  unfolding api_wines_def Let_def
  by (auto split: option.splits if_splits prod.splits dest: subsetD[OF set_limit_offset])

lemma api_wines_sorted: "api_wines rq d = Inr rows \<Longrightarrow> sorted_wrt ranks_before rows"
  unfolding api_wines_def Let_def matching_def
  by (auto split: option.splits if_splits prod.splits intro: sorted_limit_offset sorted_order_by)

subsection \<open>Ingestion leaves the other tables alone\<close>

lemma upsertWine_frame:
  "upsertWine now p d = Inr d' \<Longrightarrow> admin_overrides d' = admin_overrides d \<and> meta d' = meta d"
  by (auto simp: upsertWine_def split: if_splits param.splits)

lemma run_upserts_frame:
  "run_upserts now ps d = Inr d' \<Longrightarrow> admin_overrides d' = admin_overrides d \<and> meta d' = meta d"
proof (induction ps arbitrary: d)
  case Nil
  then show ?case by simp
next
  case (Cons p ps)
  then obtain d1 where 1: "upsertWine now p d = Inr d1" and 2: "run_upserts now ps d1 = Inr d'"
    by (auto split: sum.splits)
  from Cons.IH[OF 2] upsertWine_frame[OF 1] show ?case by simp
qed

lemma upsert_rows_keeps:
  "w \<in> set ws \<Longrightarrow> \<exists>w'\<in>set (upsert_rows now p n a v ws). same_identity w w'"
proof (cases "conflicts (column (p_external_id p)) ws")
  case True
  assume "w \<in> set ws"
  then have "do_update now p n a v w \<in> set (upsert_rows now p n a v ws)"
    using True by (simp add: upsert_rows_def)
  moreover have "same_identity w (do_update now p n a v w)"
    by (simp add: same_identity_def do_update_def)
  ultimately show ?thesis by blast
next
  case False
  assume "w \<in> set ws"
  then have "w \<in> set (upsert_rows now p n a v ws)"
    using False by (simp add: upsert_rows_def)
  moreover have "same_identity w w" by (simp add: same_identity_def)
  ultimately show ?thesis by blast
qed

lemma upsertWine_keeps:
  "upsertWine now p d = Inr d' \<Longrightarrow> w \<in> set (wines d) \<Longrightarrow> \<exists>w'\<in>set (wines d'). same_identity w w'"
  using upsert_rows_keeps
  by (auto simp: upsertWine_def split: if_splits param.splits)

lemma run_upserts_keeps:
  "run_upserts now ps d = Inr d' \<Longrightarrow> w \<in> set (wines d) \<Longrightarrow> \<exists>w'\<in>set (wines d'). same_identity w w'"
proof (induction ps arbitrary: d w)
  case Nil
  then show ?case by (auto simp: same_identity_def)
next
  case (Cons p ps)
  then obtain d1 where 1: "upsertWine now p d = Inr d1" and 2: "run_upserts now ps d1 = Inr d'"
    by (auto split: sum.splits)
  from upsertWine_keeps[OF 1 Cons.prems(2)] obtain w1 where w1: "w1 \<in> set (wines d1)" "same_identity w w1"
    by blast
  from Cons.IH[OF 2 w1(1)] obtain w' where "w' \<in> set (wines d')" "same_identity w1 w'" by blast
  with w1(2) show ?case by (auto simp: same_identity_def)
qed

lemma admin_import_frame: "admin_overrides (snd (admin_import now items d)) = admin_overrides d"
  by (auto simp: admin_import_def setMeta_def split: sum.splits dest: run_upserts_frame)

lemma admin_import_keeps:
  "w \<in> set (wines d) \<Longrightarrow> \<exists>w'\<in>set (wines (snd (admin_import now items d))). same_identity w w'"
proof (cases "run_upserts now (map (stamp now) items) d")
  case (Inl e)
  assume "w \<in> set (wines d)"
  then show ?thesis using Inl by (auto simp: admin_import_def same_identity_def)
next
  case (Inr d')
  assume "w \<in> set (wines d)"
  from run_upserts_keeps[OF Inr this] show ?thesis
    using Inr by (simp add: admin_import_def setMeta_def)
qed

lemma refresh_frame: "admin_overrides (refreshVivinoData now file d) = admin_overrides d"
  by (auto simp: refreshVivinoData_def setMeta_def split: sum.splits seed_file.splits dest: run_upserts_frame)

subsection \<open>A transaction as a fold\<close>

lemma accepted_vals:
  assumes "accepted p"
  obtains n a v where "p_name p = Val n" "p_aoc p = Val a" "p_vivino_rating p = Val v"
  using assms unfolding accepted_def bindable_def
  by (cases "p_name p"; cases "p_aoc p"; cases "p_vivino_rating p") auto

lemma upsertWine_accepted:
  "accepted p \<Longrightarrow> upsertWine now p d = Inr (d\<lparr>wines := apply_params now p (wines d)\<rparr>)"
proof -
  assume acc: "accepted p"
  then obtain n a v where "p_name p = Val n" "p_aoc p = Val a" "p_vivino_rating p = Val v"
    by (rule accepted_vals)
  with acc show ?thesis
    by (simp add: upsertWine_def apply_params_def accepted_def)
qed

lemma upsertWine_rejected: "\<not> accepted p \<Longrightarrow> \<exists>e. upsertWine now p d = Inl e"
  unfolding accepted_def upsertWine_def
  by (cases "p_name p"; cases "p_aoc p"; cases "p_vivino_rating p") (auto simp: bindable_def)

lemma run_upserts_accepted:
  "list_all accepted ps \<Longrightarrow>
     run_upserts now ps d = Inr (d\<lparr>wines := fold (apply_params now) ps (wines d)\<rparr>)"
  by (induction ps arbitrary: d) (simp_all add: upsertWine_accepted)

lemma run_upserts_rejected:
  "\<not> list_all accepted ps \<Longrightarrow> \<exists>e. run_upserts now ps d = Inl e"
proof (induction ps arbitrary: d)
  case Nil
  then show ?case by simp
next
  case (Cons p ps)
  show ?case
  proof (cases "accepted p")
    case True
    with Cons.prems have "\<not> list_all accepted ps" by simp
    from Cons.IH[OF this] True show ?thesis by (simp add: upsertWine_accepted)
  next
    case False
    from upsertWine_rejected[OF this] obtain e where "upsertWine now p d = Inl e" by blast
    then show ?thesis by simp
  qed
qed

lemma accepted_stamp: "accepted (stamp t p) = accepted (stamp t' p)"
  by (simp add: accepted_def bindable_def stamp_def)

lemma conflicts_iff: "conflicts e ws \<longleftrightarrow> e \<noteq> None \<and> e \<in> set (map external_id ws)"
  by (auto simp: conflicts_def list_ex_iff)

lemma external_id_do_update [simp]: "external_id (do_update now p n a v w) = external_id w"
  by (simp add: do_update_def)

lemma external_ids_upsert_rows:
  "map external_id (upsert_rows now p n a v ws) =
     (if conflicts (column (p_external_id p)) ws then map external_id ws
      else map external_id ws @ [column (p_external_id p)])"
  by (simp add: upsert_rows_def new_wine_def comp_def)

lemma conflicts_upsert_rows_mono:
  "conflicts e ws \<Longrightarrow> conflicts e (upsert_rows now p n a v ws)"
  unfolding conflicts_iff external_ids_upsert_rows by auto

lemma conflicts_upsert_rows_self:
  "p_external_id p = Val e \<Longrightarrow> conflicts (Some e) (upsert_rows now p n a v ws)"
  unfolding conflicts_iff[of _ "upsert_rows now p n a v ws"] external_ids_upsert_rows
  by (auto simp: conflicts_iff)

lemma conflicts_apply_mono: "conflicts e ws \<Longrightarrow> conflicts e (apply_params now p ws)"
  by (auto simp: apply_params_def conflicts_upsert_rows_mono split: param.splits)

lemma conflicts_fold_mono: "conflicts e ws \<Longrightarrow> conflicts e (fold (apply_params now) ps ws)"
  by (induction ps arbitrary: ws) (auto simp: conflicts_apply_mono)

lemma conflicts_apply_self:
  "accepted p \<Longrightarrow> p_external_id p = Val e \<Longrightarrow> conflicts (Some e) (apply_params now p ws)"
  by (erule accepted_vals) (simp add: apply_params_def conflicts_upsert_rows_self)

lemma conflicts_fold_all:
  "list_all accepted ps \<Longrightarrow> p \<in> set ps \<Longrightarrow> p_external_id p = Val e \<Longrightarrow>
     conflicts (Some e) (fold (apply_params now) ps ws)"
proof (induction ps arbitrary: ws)
  case Nil
  then show ?case by simp
next
  case (Cons x xs)
  show ?case
  proof (cases "p = x")
    case True
    with Cons.prems have "conflicts (Some e) (apply_params now x ws)"
      by (simp add: conflicts_apply_self)
    then show ?thesis by (simp add: conflicts_fold_mono)
  next
    case False
    with Cons show ?thesis by simp
  qed
qed

lemma external_id_row_update [simp]: "external_id (row_update now p w) = external_id w"
  by (auto simp: row_update_def do_update_def split: param.splits)

lemma id_row_update [simp]: "id' (row_update now p w) = id' w"
  by (auto simp: row_update_def do_update_def split: param.splits)

lemma created_at_row_update [simp]: "created_at (row_update now p w) = created_at w"
  by (auto simp: row_update_def do_update_def split: param.splits)

lemma conflicts_map_row_update [simp]:
  "conflicts e (map (row_update now p) ws) = conflicts e ws"
  by (simp add: conflicts_iff comp_def)

lemma apply_params_conflict:
  "conflicts (column (p_external_id p)) ws \<Longrightarrow> apply_params now p ws = map (row_update now p) ws"
  by (cases "p_name p"; cases "p_aoc p"; cases "p_vivino_rating p")
     (simp_all add: apply_params_def row_update_def[abs_def] upsert_rows_def)

lemma fold_apply_params_present:
  "\<forall>p\<in>set ps. conflicts (column (p_external_id p)) ws \<Longrightarrow>
     fold (apply_params now) ps ws = map (\<lambda>w. fold (row_update now) ps w) ws"
proof (induction ps arbitrary: ws)
  case Nil
  then show ?case by simp
next
  case (Cons x xs)
  then have 1: "apply_params now x ws = map (row_update now x) ws"
    by (simp add: apply_params_conflict)
  have "\<forall>p\<in>set xs. conflicts (column (p_external_id p)) (map (row_update now x) ws)"
    using Cons.prems by simp
  from Cons.IH[OF this] 1 show ?case by (simp add: comp_def)
qed

subsection \<open>The second pass of a batch\<close>

lemma fold_row_update_identity [simp]:
  "external_id (fold (row_update now) ps w) = external_id w"
  "id' (fold (row_update now) ps w) = id' w"
  "created_at (fold (row_update now) ps w) = created_at w"
  by (induction ps arbitrary: w) simp_all

lemma row_update_other:
  "external_id w \<noteq> column (p_external_id p) \<Longrightarrow> row_update now p w = w"
  by (auto simp: row_update_def do_update_def split: param.splits)

lemma strip_row_update_match:
  assumes "accepted (stamp t1 p)" and "external_id u = column (p_external_id p)"
    and "id' u = id' w" and "external_id u = external_id w" and "created_at u = created_at w"
  shows "strip_times (row_update t2 (stamp t2 p) u) = strip_times (row_update t1 (stamp t1 p) w)"
proof -
  from assms(1) obtain n a v where "p_name p = Val n" "p_aoc p = Val a" "p_vivino_rating p = Val v"
    by (rule accepted_vals) (simp add: stamp_def)
  with assms(2-) show ?thesis
    by (simp add: row_update_def do_update_def stamp_def strip_times_def)
qed

lemma strip_row_update_new:
  assumes "p_name p = Val n" "p_aoc p = Val a" "p_vivino_rating p = Val v"
    and "id' u = i" and "external_id u = column (p_external_id p)" and "created_at u = t1"
  shows "strip_times (row_update t2 (stamp t2 p) u) = strip_times (new_wine t1 (stamp t1 p) n a v i)"
  using assms
  by (simp add: row_update_def do_update_def stamp_def strip_times_def new_wine_def)

lemma second_pass_fixpoint:
  assumes "list_all (\<lambda>p. accepted (stamp t1 p)) items"
    and "\<forall>p\<in>set items. p_external_id p \<noteq> Null"
  shows "\<forall>w\<in>set (fold (apply_params t1) (map (stamp t1) items) ws).
           strip_times (fold (row_update t2) (map (stamp t2) items) w) = strip_times w"
  using assms
proof (induction items rule: rev_induct)
  case Nil
  then show ?case by simp
next
  case (snoc x xs)
  define W where "W = fold (apply_params t1) (map (stamp t1) xs) ws"
  have IH: "\<forall>w\<in>set W. strip_times (fold (row_update t2) (map (stamp t2) xs) w) = strip_times w"
    using snoc unfolding W_def by simp
  have acc: "accepted (stamp t1 x)" using snoc.prems(1) by simp
  then obtain n a v where vals: "p_name x = Val n" "p_aoc x = Val a" "p_vivino_rating x = Val v"
    by (rule accepted_vals) (simp add: stamp_def)
  from acc snoc.prems(2) obtain e where key: "p_external_id x = Val e"
    by (cases "p_external_id x") (auto simp: accepted_def bindable_def stamp_def)
  have key1: "column (p_external_id (stamp t1 x)) = Some e" "column (p_external_id (stamp t2 x)) = Some e"
    using key by (simp_all add: stamp_def)
  have W': "fold (apply_params t1) (map (stamp t1) (xs @ [x])) ws = upsert_rows t1 (stamp t1 x) n a v W"
    using vals by (simp add: W_def apply_params_def stamp_def)
  have other: "strip_times (fold (row_update t2) (map (stamp t2) (xs @ [x])) w) = strip_times w"
    if "w \<in> set W" "external_id w \<noteq> Some e" for w
  proof -
    have "row_update t2 (stamp t2 x) (fold (row_update t2) (map (stamp t2) xs) w)
            = fold (row_update t2) (map (stamp t2) xs) w"
      using that(2) key1 by (intro row_update_other) simp
    with IH that(1) show ?thesis by simp
  qed
  show ?case
  proof
    fix w assume "w \<in> set (fold (apply_params t1) (map (stamp t1) (xs @ [x])) ws)"
    then have w: "w \<in> set (upsert_rows t1 (stamp t1 x) n a v W)" by (simp only: W')
    let ?u = "fold (row_update t2) (map (stamp t2) xs) w"
    show "strip_times (fold (row_update t2) (map (stamp t2) (xs @ [x])) w) = strip_times w"
    proof (cases "conflicts (Some e) W")
      case True
      with w key1 obtain w0 where w0: "w0 \<in> set W" "w = do_update t1 (stamp t1 x) n a v w0"
        by (auto simp: upsert_rows_def)
      show ?thesis
      proof (cases "external_id w0 = Some e")
        case True
        have "w = row_update t1 (stamp t1 x) w0"
          using w0(2) vals by (simp add: row_update_def stamp_def)
        moreover have "strip_times (row_update t2 (stamp t2 x) ?u) = strip_times (row_update t1 (stamp t1 x) w0)"
          using True key w0(2) by (intro strip_row_update_match acc) (simp_all add: stamp_def do_update_def)
        ultimately show ?thesis by simp
      next
        case False
        then have "w = w0" using w0(2) key1 by (simp add: do_update_def)
        with other[of w0] w0(1) False show ?thesis by simp
      qed
    next
      case False
      with w key1 consider "w \<in> set W" | "w = new_wine t1 (stamp t1 x) n a v (next_rowid W)"
        by (auto simp: upsert_rows_def)
      then show ?thesis
      proof cases
        case 1
        with False have "external_id w \<noteq> Some e"
          by (force simp: conflicts_iff)
        with other 1 show ?thesis by blast
      next
        case 2
        have "strip_times (row_update t2 (stamp t2 x) ?u)
                = strip_times (new_wine t1 (stamp t1 x) n a v (next_rowid W))"
          using vals key 2 by (intro strip_row_update_new) (simp_all add: new_wine_def stamp_def)
        with 2 show ?thesis by simp
      qed
    qed
  qed
qed

lemma row_update_match:
  assumes "accepted p" and "external_id u = column (p_external_id p)"
  shows "updated_at (row_update t p u) = t \<and>
         last_source_update (row_update t p u) = column (p_last_source_update p)"
proof -
  from assms(1) obtain n a v where "p_name p = Val n" "p_aoc p = Val a" "p_vivino_rating p = Val v"
    by (rule accepted_vals)
  with assms(2) show ?thesis by (simp add: row_update_def do_update_def)
qed

lemma fold_row_update_touched:
  assumes "list_all (\<lambda>p. accepted (stamp t p)) items" and "x \<in> set items"
    and "external_id w = column (p_external_id x)"
  shows "updated_at (fold (row_update t) (map (stamp t) items) w) = t \<and>
         last_source_update (fold (row_update t) (map (stamp t) items) w) = Some t"
  using assms
proof (induction items rule: rev_induct)
  case Nil
  then show ?case by simp
next
  case (snoc y ys)
  let ?u = "fold (row_update t) (map (stamp t) ys) w"
  from snoc.prems(1) have acc: "accepted (stamp t y)" by simp
  show ?case
  proof (cases "external_id w = column (p_external_id y)")
    case True
    then have "external_id ?u = column (p_external_id (stamp t y))" by (simp add: stamp_def)
    moreover have "p_last_source_update (stamp t y) = Val t" by (simp add: stamp_def)
    ultimately show ?thesis using row_update_match[OF acc, of ?u t] by simp
  next
    case False
    then have "row_update t (stamp t y) ?u = ?u"
      by (intro row_update_other) (simp add: stamp_def)
    moreover from False snoc.prems(2,3) have "x \<in> set ys" by auto
    ultimately show ?thesis using snoc by simp
  qed
qed

lemma distinct_ids_upsert_rows:
  "distinct_ids ws \<Longrightarrow> distinct_ids (upsert_rows now p n a v ws)"
  unfolding distinct_ids_def external_ids_upsert_rows
  by (auto simp: conflicts_iff)

lemma distinct_ids_apply: "distinct_ids ws \<Longrightarrow> distinct_ids (apply_params now p ws)"
  by (auto simp: apply_params_def distinct_ids_upsert_rows split: param.splits)

lemma distinct_ids_fold: "distinct_ids ws \<Longrightarrow> distinct_ids (fold (apply_params now) ps ws)"
  by (induction ps arbitrary: ws) (auto simp: distinct_ids_apply)

lemma admin_import_accepted:
  "list_all accepted (map (stamp now) items) \<Longrightarrow>
     admin_import now items d =
       (Success (length items),
        setMeta ''last_refresh'' now (d\<lparr>wines := fold (apply_params now) (map (stamp now) items) (wines d)\<rparr>))"
  by (simp add: admin_import_def run_upserts_accepted)

lemma admin_import_rejected:
  "\<not> list_all accepted (map (stamp now) items) \<Longrightarrow>
     admin_import now items d = (Failure 500 ''Import failed'', d)"
  using run_upserts_rejected[of "map (stamp now) items" now d]
  by (auto simp: admin_import_def)

lemma accepted_stamp_all:
  "list_all accepted (map (stamp t) items) = list_all accepted (map (stamp t') items)"
  using accepted_stamp[of t _ t'] by (induction items) auto

subsection \<open>The refresh threshold\<close>

lemma day_diff_due: "day_diff now t \<ge> 75 \<longleftrightarrow> now - t \<ge> 75 * 86400000"
  unfolding day_diff_def Let_def by auto

subsection \<open>The example data, evaluated\<close>

lemma scenario_db_eq:
  "scenario_db =
     \<lparr>wines = [\<lparr>id' = 1, external_id = Some ''x1'', name = ''W1'', winery = None,
                 aoc = ''Pauillac'', vintage = None, vivino_rating = 4, rating_count = Some 0,
                 price = None, last_source_update = Some 100, created_at = 100, updated_at = 100\<rparr>],
      admin_overrides = (\<lambda>i. None)(1 \<mapsto> \<lparr>o_adjustment_pct = 10, o_updated_at = 200\<rparr>),
      meta = (\<lambda>k. None)(''last_refresh'' \<mapsto> 100)\<rparr>"
  by (simp add: scenario_db_def admin_override_def getWineById_def upsertOverride_def ingest_defs
        scenario_defs Let_def)

lemma selected_margaux_21:
  "filter (selected (no_params\<lparr>rq_aoc := Some ''Margaux''\<rparr>)) (map (join_override db_21) (wines db_21))
     = map (join_override db_21) (wines db_21)"
  by (rule filter_True) (auto simp: selected_def given_def no_params_def db_21_def join_override_def wine_A_def)

lemma length_matching_21: "length (matching (no_params\<lparr>rq_aoc := Some ''Margaux''\<rparr>) db_21) = 21"
  unfolding matching_def length_order_by selected_margaux_21
  by (simp add: db_21_def)

lemma set_matching: "set (matching rq d) = {r \<in> set (map (join_override d) (wines d)). selected rq r}"
  by (auto simp: matching_def set_order_by)

subsection \<open>The query on doubles\<close>



















lemma join_override_fl_id: "join_override_fl id d w = join_override d w"
  by (simp add: join_override_fl_def join_override_def computed_rating_def sql_adjusted_rating_def)

lemma api_wines_fl_id: "api_wines_fl id rq d = api_wines rq d"
proof -
  have "join_override_fl id d = join_override d" by (rule ext) (rule join_override_fl_id)
  then have m: "matching_fl id rq d = matching rq d" by (simp add: matching_fl_def matching_def)
  show ?thesis unfolding api_wines_fl_def api_wines_def m by (rule refl)
qed




subsection \<open>The two wines of the example, with and without an override\<close>












section \<open>The claims\<close>

text \<open>
  C1. For every base score \<open>b\<close> and adjustment percentage \<open>p\<close> the effective score is
  \<open>b * (1 + clamp p / 100)\<close>, where \<open>clamp\<close> saturates into [-25, 25]: both
  \<^verbatim>\<open>adjustedRating\<close> and the SQL column \<^verbatim>\<open>adjusted_rating\<close> compute it, and they agree on
  every row of the join. At \<open>p = 0\<close> the score is \<open>b\<close>, and 26 gives what 25 gives. The
  functions take and return values only: there is no state for them to change.
\<close>

theorem adjustedRating_formula:
  "adjustedRating r = vivino_rating (wine_cols r) * (1 + spec_clamp (adjustment_pct r) / 100)
   \<and> sql_adjusted_rating b p = b * (1 + spec_clamp p / 100)
   \<and> adjustedRating (r\<lparr>adjustment_pct := 0\<rparr>) = vivino_rating (wine_cols r)
   \<and> sql_adjusted_rating b 0 = b
   \<and> adjustedRating (r\<lparr>adjustment_pct := 26\<rparr>) = adjustedRating (r\<lparr>adjustment_pct := 25\<rparr>)
   \<and> sql_adjusted_rating b 26 = sql_adjusted_rating b 25
   \<and> - 25 \<le> spec_clamp p \<and> spec_clamp p \<le> 25
   \<and> adjusted_rating (join_override d w) = adjustedRating (join_override d w)"
  by (simp add: adjustedRating_def sql_adjusted_rating_def sanitizeNumber_def js_or_def Let_def
        spec_clamp_def join_override_def)

text \<open>
  C2. No ingestion touches an override: \<^verbatim>\<open>upsertWine\<close>, the import and the refresh leave
  table \<^verbatim>\<open>admin_overrides\<close> as it was, and every wine that was in the catalogue is
  still there under the same id, external id and creation time, so the override found
  for it by the join is the one it had.
\<close>

theorem ingestion_keeps_overrides:
  "(\<forall>d'. upsertWine now p d = Inr d' \<longrightarrow> admin_overrides d' = admin_overrides d)
   \<and> admin_overrides (snd (admin_import now items d)) = admin_overrides d
   \<and> admin_overrides (refreshVivinoData now file d) = admin_overrides d
   \<and> (\<forall>w\<in>set (wines d). \<exists>w'\<in>set (wines (snd (admin_import now items d))).
         id' w' = id' w \<and> external_id w' = external_id w \<and> created_at w' = created_at w \<and>
         adjustment_pct (join_override (snd (admin_import now items d)) w')
           = adjustment_pct (join_override d w))"
proof -
  have "\<exists>w'\<in>set (wines (snd (admin_import now items d))).
         id' w' = id' w \<and> external_id w' = external_id w \<and> created_at w' = created_at w \<and>
         adjustment_pct (join_override (snd (admin_import now items d)) w')
           = adjustment_pct (join_override d w)" if "w \<in> set (wines d)" for w
  proof -
    from admin_import_keeps[OF that] obtain w' where
      "w' \<in> set (wines (snd (admin_import now items d)))" "same_identity w w'" by blast
    then show ?thesis
      by (auto simp: same_identity_def join_override_def Let_def admin_import_frame intro!: bexI[of _ w'])
  qed
  then show ?thesis
    using upsertWine_frame admin_import_frame refresh_frame by blast
qed

theorem ingestion_keeps_overrides_witness:
  "admin_overrides scenario_db 1 = Some \<lparr>o_adjustment_pct = 10, o_updated_at = 200\<rparr>
   \<and> admin_overrides (snd (admin_import 300 [item_x1_renamed] scenario_db)) 1
       = Some \<lparr>o_adjustment_pct = 10, o_updated_at = 200\<rparr>
   \<and> wines (snd (admin_import 300 [item_x1_renamed] scenario_db))
       = [\<lparr>id' = 1, external_id = Some ''x1'', name = ''W1-renamed'', winery = None,
            aoc = ''Pauillac'', vintage = None, vivino_rating = 4.2, rating_count = Some 0,
            price = None, last_source_update = Some 300, created_at = 100, updated_at = 300\<rparr>]
   \<and> map adjusted_rating (matching (no_params\<lparr>rq_aoc := Some ''Pauillac''\<rparr>) scenario_db) = [4.4]
   \<and> map adjusted_rating (matching (no_params\<lparr>rq_aoc := Some ''Pauillac''\<rparr>)
         (snd (admin_import 300 [item_x1_renamed] scenario_db))) = [4.62]"
proof -
  have ov: "admin_overrides (snd (admin_import 300 [item_x1_renamed] scenario_db)) = admin_overrides scenario_db"
    using ingestion_keeps_overrides[of 300 undefined scenario_db "[item_x1_renamed]" undefined]
    by simp
  have o1: "admin_overrides scenario_db 1 = Some \<lparr>o_adjustment_pct = 10, o_updated_at = 200\<rparr>"
    by (simp add: scenario_db_eq)
  have w: "wines (snd (admin_import 300 [item_x1_renamed] scenario_db))
       = [\<lparr>id' = 1, external_id = Some ''x1'', name = ''W1-renamed'', winery = None,
            aoc = ''Pauillac'', vintage = None, vivino_rating = 4.2, rating_count = Some 0,
            price = None, last_source_update = Some 300, created_at = 100, updated_at = 300\<rparr>]"
    by (simp add: scenario_db_eq ingest_defs scenario_defs)
  have m1: "map adjusted_rating (matching (no_params\<lparr>rq_aoc := Some ''Pauillac''\<rparr>) scenario_db) = [4.4]"
    by (simp add: scenario_db_eq query_defs no_params_def)
  have m2: "map adjusted_rating (matching (no_params\<lparr>rq_aoc := Some ''Pauillac''\<rparr>)
         (snd (admin_import 300 [item_x1_renamed] scenario_db))) = [4.62]"
    using w ov o1 by (simp add: query_defs no_params_def)
  show ?thesis using ov o1 w m1 m2 by simp
qed



text \<open>
  C4. \<^verbatim>\<open>POST /api/admin/override\<close> answers 400 and leaves the database as it was for
  every \<^verbatim>\<open>adjustment_pct\<close> whose number is above 25 or below -25 (with a wine id in the
  body, the message is the one of the range check); with exactly 25 or -25 and the id of
  a wine, it answers 200 and stores that very percentage.
\<close>

theorem override_range_check:
  "(\<forall>p. Number (body_adjustment_pct body) = Fin p \<and> (p > 25 \<or> p < - 25) \<longrightarrow>
       status (fst (admin_override now body d)) = 400 \<and>
       snd (admin_override now body d) = d \<and>
       (body_wine_id body \<noteq> None \<and> body_wine_id body \<noteq> Some 0 \<longrightarrow>
          fst (admin_override now body d)
            = Failure 400 ''adjustment_pct must be between -25 and 25''))
   \<and> (\<forall>i w p. getWineById i d = Some w \<and> i \<noteq> 0 \<and> (p = 25 \<or> p = - 25) \<longrightarrow>
       admin_override now \<lparr>body_wine_id = Some i, body_adjustment_pct = JNum (Fin p)\<rparr> d
         = (Success (join_override (upsertOverride now (id' w) p d) w), upsertOverride now (id' w) p d)
       \<and> admin_overrides (upsertOverride now (id' w) p d) (id' w)
         = Some \<lparr>o_adjustment_pct = p, o_updated_at = now\<rparr>
       \<and> adjustment_pct (join_override (upsertOverride now (id' w) p d) w) = p)"
  by (auto simp: admin_override_def upsertOverride_def join_override_def Let_def
           split: option.splits jsnum.splits)

theorem override_range_check_witness:
  "Number (JStr ''25.1'') = Fin 25.1
   \<and> admin_override 7 \<lparr>body_wine_id = Some 1, body_adjustment_pct = JStr ''25.1''\<rparr> db_AB
       = (Failure 400 ''adjustment_pct must be between -25 and 25'', db_AB)
   \<and> admin_override 7 \<lparr>body_wine_id = Some 1, body_adjustment_pct = JNum (Fin (- 25.1))\<rparr> db_AB
       = (Failure 400 ''adjustment_pct must be between -25 and 25'', db_AB)
   \<and> getWineById 1 db_AB = Some wine_A
   \<and> admin_overrides (snd (admin_override 7 \<lparr>body_wine_id = Some 1, body_adjustment_pct = JNum (Fin 25)\<rparr> db_AB)) 1
       = Some \<lparr>o_adjustment_pct = 25, o_updated_at = 7\<rparr>
   \<and> admin_overrides (snd (admin_override 7 \<lparr>body_wine_id = Some 1, body_adjustment_pct = JNum (Fin (- 25))\<rparr> db_AB)) 1
       = Some \<lparr>o_adjustment_pct = - 25, o_updated_at = 7\<rparr>"
proof -
  have n: "Number (JStr ''25.1'') = Fin 25.1"
    by (simp add: number_defs)
  have g: "getWineById 1 db_AB = Some wine_A"
    by (simp add: getWineById_def example_defs)
  have i: "id' wine_A = 1" by (simp add: wine_A_def)
  note reject = override_range_check[THEN conjunct1, rule_format]
  note accept = override_range_check[THEN conjunct2, rule_format]
  have h1: "Number (body_adjustment_pct \<lparr>body_wine_id = Some 1, body_adjustment_pct = JStr ''25.1''\<rparr>) = Fin 25.1
      \<and> ((25.1::real) > 25 \<or> (25.1::real) < - 25)"
    using n by simp
  have h2: "Number (body_adjustment_pct \<lparr>body_wine_id = Some 1, body_adjustment_pct = JNum (Fin (- 25.1))\<rparr>) = Fin (- 25.1)
      \<and> ((- 25.1::real) > 25 \<or> (- 25.1::real) < - 25)"
    by simp
  have h3: "getWineById 1 db_AB = Some wine_A \<and> (1::real) \<noteq> 0 \<and> ((25::real) = 25 \<or> (25::real) = - 25)"
    using g by simp
  have h4: "getWineById 1 db_AB = Some wine_A \<and> (1::real) \<noteq> 0 \<and> ((- 25::real) = 25 \<or> (- 25::real) = - 25)"
    using g by simp
  show ?thesis
    using n g reject[OF h1, of 7 db_AB] reject[OF h2, of 7 db_AB]
      accept[OF h3, of 7] accept[OF h4, of 7] i
    by (simp add: prod_eq_iff)
qed

text \<open>
  C5. Without a limit and without the \<^verbatim>\<open>all\<close> flag, a response holds at most 20 rows
  when an appellation is given and at most 100 when none is: it is the first 20 or 100
  rows of the ranking, counted from the offset when one is given as an integer. With
  the \<^verbatim>\<open>all\<close> flag it is the whole ranking.
\<close>

theorem default_limit:
  assumes "given (rq_limit rq) = None"
  shows "(given (rq_all rq) = None \<longrightarrow>
            (\<forall>rows. api_wines rq d = Inr rows \<longrightarrow>
               length rows \<le> (if given (rq_aoc rq) \<noteq> None then 20 else 100)) \<and>
            (\<forall>f. sql_integer (query_off rq) = Some f \<longrightarrow>
               api_wines rq d
                 = Inr (take (if given (rq_aoc rq) \<noteq> None then 20 else 100)
                          (drop (nat f) (matching rq d)))) \<and>
            (given (rq_offset rq) = None \<longrightarrow>
               api_wines rq d
                 = Inr (take (if given (rq_aoc rq) \<noteq> None then 20 else 100) (matching rq d))))
       \<and> (given (rq_all rq) \<noteq> None \<longrightarrow> api_wines rq d = Inr (matching rq d))"
  using assms
  by (auto simp: api_wines_def query_lim_def query_off_def Let_def limit_offset_def
           split: option.splits if_splits)

theorem default_limit_witness:
  "given (rq_limit (no_params\<lparr>rq_aoc := Some ''Margaux''\<rparr>)) = None
   \<and> length (matching (no_params\<lparr>rq_aoc := Some ''Margaux''\<rparr>) db_21) = 21
   \<and> api_wines (no_params\<lparr>rq_aoc := Some ''Margaux''\<rparr>) db_21
        = Inr (take 20 (matching (no_params\<lparr>rq_aoc := Some ''Margaux''\<rparr>) db_21))
   \<and> length (take 20 (matching (no_params\<lparr>rq_aoc := Some ''Margaux''\<rparr>) db_21)) = 20
   \<and> api_wines no_params db_21 = Inr (take 100 (matching no_params db_21))"
proof -
  let ?rq = "no_params\<lparr>rq_aoc := Some ''Margaux''\<rparr>"
  have h: "given (rq_limit ?rq) = None"
    by (simp add: given_def no_params_def)
  have a: "given (rq_all ?rq) = None" "given (rq_offset ?rq) = None" "given (rq_aoc ?rq) \<noteq> None"
    by (simp_all add: given_def no_params_def)
  note t = default_limit[OF h, of db_21, THEN conjunct1, rule_format, OF a(1),
             THEN conjunct2, THEN conjunct2, rule_format, OF a(2)]
  have r: "api_wines ?rq db_21 = Inr (take 20 (matching ?rq db_21))"
    using t a(3) by (simp only: if_True not_False_eq_True)
  have l: "length (take 20 (matching ?rq db_21)) = 20"
    by (simp add: length_matching_21)
  have h0: "given (rq_limit no_params) = None"
    by (simp add: given_def no_params_def)
  have a0: "given (rq_all no_params) = None" "given (rq_offset no_params) = None"
    "given (rq_aoc no_params) = None"
    by (simp_all add: given_def no_params_def)
  note t0 = default_limit[OF h0, of db_21, THEN conjunct1, rule_format, OF a0(1),
             THEN conjunct2, THEN conjunct2, rule_format, OF a0(2)]
  have r0: "api_wines no_params db_21 = Inr (take 100 (matching no_params db_21))"
    using t0 a0(3) by (simp only: if_False not_True_eq_False simp_thms)
  show ?thesis
    by (intro conjI) (fact h, fact length_matching_21, fact r, fact l, fact r0)
qed

text \<open>
  C6. Importing a batch in which every record has an external id, and importing the same
  batch again, gives the catalogue of the first import: the same rows in the same order
  with the same values but for \<^verbatim>\<open>updated_at\<close> and \<^verbatim>\<open>last_source_update\<close>, the same
  overrides, no row more, and external ids that were unique stay unique. The second
  import answers as the first did; when that is a success, \<^verbatim>\<open>last_refresh\<close> and the two
  instants of every row the batch names are those of the second import.
\<close>

theorem import_idempotent:
  assumes "\<forall>p\<in>set items. p_external_id p \<noteq> Null"
  shows "map strip_times (wines (snd (admin_import t2 items (snd (admin_import t1 items d)))))
           = map strip_times (wines (snd (admin_import t1 items d)))
       \<and> length (wines (snd (admin_import t2 items (snd (admin_import t1 items d)))))
           = length (wines (snd (admin_import t1 items d)))
       \<and> admin_overrides (snd (admin_import t2 items (snd (admin_import t1 items d))))
           = admin_overrides (snd (admin_import t1 items d))
       \<and> (unique_external_ids d \<longrightarrow>
            unique_external_ids (snd (admin_import t1 items d)) \<and>
            unique_external_ids (snd (admin_import t2 items (snd (admin_import t1 items d)))))
       \<and> status (fst (admin_import t2 items (snd (admin_import t1 items d))))
           = status (fst (admin_import t1 items d))
       \<and> (status (fst (admin_import t1 items d)) = 200 \<longrightarrow>
            getMeta ''last_refresh'' (snd (admin_import t2 items (snd (admin_import t1 items d))))
              = Some t2 \<and>
            (\<forall>w\<in>set (wines (snd (admin_import t2 items (snd (admin_import t1 items d))))).
               (\<exists>x\<in>set items. external_id w = column (p_external_id x)) \<longrightarrow>
               updated_at w = t2 \<and> last_source_update w = Some t2))"
proof (cases "list_all accepted (map (stamp t1) items)")
  case False
  then have "\<not> list_all accepted (map (stamp t2) items)"
    using accepted_stamp_all by blast
  with False show ?thesis
    by (simp add: admin_import_rejected)
next
  case True
  then have True2: "list_all accepted (map (stamp t2) items)"
    using accepted_stamp_all by blast
  define W1 where "W1 = fold (apply_params t1) (map (stamp t1) items) (wines d)"
  define d1 where "d1 = setMeta ''last_refresh'' t1 (d\<lparr>wines := W1\<rparr>)"
  define W2 where "W2 = fold (apply_params t2) (map (stamp t2) items) W1"
  define d2 where "d2 = setMeta ''last_refresh'' t2 (d1\<lparr>wines := W2\<rparr>)"
  have r1: "admin_import t1 items d = (Success (length items), d1)"
    using True by (simp add: admin_import_accepted d1_def W1_def)
  have wd1: "wines d1 = W1" by (simp add: d1_def setMeta_def)
  have r2: "admin_import t2 items d1 = (Success (length items), d2)"
    using True2 by (simp add: admin_import_accepted d2_def W2_def wd1)
  have wd2: "wines d2 = W2" by (simp add: d2_def setMeta_def)
  have present: "\<forall>p\<in>set (map (stamp t2) items). conflicts (column (p_external_id p)) W1"
  proof
    fix p assume "p \<in> set (map (stamp t2) items)"
    then obtain x where x: "x \<in> set items" "p = stamp t2 x" by auto
    with assms True obtain e where e: "p_external_id x = Val e"
      by (cases "p_external_id x") (auto simp: list_all_iff accepted_def bindable_def stamp_def)
    then have "p_external_id (stamp t1 x) = Val e" by (simp add: stamp_def)
    moreover have "stamp t1 x \<in> set (map (stamp t1) items)" using x(1) by simp
    ultimately have "conflicts (Some e) W1"
      unfolding W1_def using True by (intro conflicts_fold_all)
    with x(2) e show "conflicts (column (p_external_id p)) W1" by (simp add: stamp_def)
  qed
  have W2_map: "W2 = map (\<lambda>w. fold (row_update t2) (map (stamp t2) items) w) W1"
    unfolding W2_def using present by (rule fold_apply_params_present)
  have acc1: "list_all (\<lambda>p. accepted (stamp t1 p)) items"
    using True by (simp add: list_all_iff)
  have fixed: "map strip_times W2 = map strip_times W1"
    unfolding W2_map using second_pass_fixpoint[OF acc1 assms, of "wines d" t2]
    by (simp add: W1_def)
  from fixed have len: "length W2 = length W1"
    by (metis length_map)
  have ov: "admin_overrides d2 = admin_overrides d1"
    by (simp add: d2_def setMeta_def)
  have uniq: "unique_external_ids d1 \<and> unique_external_ids d2" if "unique_external_ids d"
  proof -
    from that have "distinct_ids (wines d)" by (simp add: unique_external_ids_def distinct_ids_def)
    then have "distinct_ids W1" unfolding W1_def by (rule distinct_ids_fold)
    moreover from this have "distinct_ids W2" unfolding W2_def by (rule distinct_ids_fold)
    ultimately show ?thesis
      by (simp add: unique_external_ids_def distinct_ids_def wd1 wd2)
  qed
  have acc2: "list_all (\<lambda>p. accepted (stamp t2 p)) items"
    using True2 by (simp add: list_all_iff)
  have touched: "updated_at w = t2 \<and> last_source_update w = Some t2"
    if "w \<in> set W2" "x \<in> set items" "external_id w = column (p_external_id x)" for w x
  proof -
    from that(1) obtain w1 where w1: "w = fold (row_update t2) (map (stamp t2) items) w1"
      unfolding W2_map by auto
    with that(3) have "external_id w1 = column (p_external_id x)" by simp
    from fold_row_update_touched[OF acc2 that(2) this] w1 show ?thesis by simp
  qed
  have refreshed: "getMeta ''last_refresh'' d2 = Some t2"
    by (simp add: d2_def getMeta_def setMeta_def)
  have touched_all: "\<forall>w\<in>set W2.
      (\<exists>x\<in>set items. external_id w = column (p_external_id x)) \<longrightarrow>
      updated_at w = t2 \<and> last_source_update w = Some t2"
    using touched by blast
  show ?thesis
    using fixed len ov uniq touched_all refreshed by (simp add: r1 r2 wd1 wd2)
qed

theorem import_idempotent_witness:
  "p_external_id item_x1 \<noteq> Null \<and> p_external_id item_x1_renamed \<noteq> Null
   \<and> wines (snd (admin_import 100 [item_x1, item_x1_renamed] empty_db))
       = [\<lparr>id' = 1, external_id = Some ''x1'', name = ''W1-renamed'', winery = None,
            aoc = ''Pauillac'', vintage = None, vivino_rating = 4.2, rating_count = Some 0,
            price = None, last_source_update = Some 100, created_at = 100, updated_at = 100\<rparr>]
   \<and> map strip_times
        (wines (snd (admin_import 300 [item_x1, item_x1_renamed]
                       (snd (admin_import 100 [item_x1, item_x1_renamed] empty_db)))))
       = [\<lparr>id' = 1, external_id = Some ''x1'', name = ''W1-renamed'', winery = None,
            aoc = ''Pauillac'', vintage = None, vivino_rating = 4.2, rating_count = Some 0,
            price = None, last_source_update = None, created_at = 100, updated_at = 0\<rparr>]"
proof -
  have h: "\<forall>p\<in>set [item_x1, item_x1_renamed]. p_external_id p \<noteq> Null"
    by (simp add: scenario_defs)
  have w: "wines (snd (admin_import 100 [item_x1, item_x1_renamed] empty_db))
       = [\<lparr>id' = 1, external_id = Some ''x1'', name = ''W1-renamed'', winery = None,
            aoc = ''Pauillac'', vintage = None, vivino_rating = 4.2, rating_count = Some 0,
            price = None, last_source_update = Some 100, created_at = 100, updated_at = 100\<rparr>]"
    by (simp add: ingest_defs scenario_defs)
  show ?thesis
    using import_idempotent[OF h, of 300 100 empty_db] w
    by (simp add: strip_times_def scenario_defs)
qed

text \<open>
  The hypothesis on the external ids is needed: \<^verbatim>\<open>UNIQUE\<close> does not compare NULLs, so a record
  bound with a null \<^verbatim>\<open>external_id\<close> is inserted anew by every import.
\<close>

lemma null_external_id_not_merged:
  "length (wines (snd (admin_import 100 [item_x1\<lparr>p_external_id := Null\<rparr>] empty_db))) = 1
   \<and> length (wines (snd (admin_import 300 [item_x1\<lparr>p_external_id := Null\<rparr>]
                 (snd (admin_import 100 [item_x1\<lparr>p_external_id := Null\<rparr>] empty_db))))) = 2"
  by (simp add: ingest_defs scenario_defs)

text \<open>
  C7, as amended. When \<^verbatim>\<open>last_refresh\<close> is absent or at least 75 days old, the check
  runs \<^verbatim>\<open>refreshVivinoData\<close>: if the seed file is there and every statement of the
  transaction succeeds, \<^verbatim>\<open>last_refresh\<close> becomes \<open>now\<close>; if the file is missing or
  unreadable or a statement throws, nothing changes. When \<^verbatim>\<open>last_refresh\<close> is less than
  75 days old, nothing changes.
\<close>

theorem refresh_check_due:
  "((getMeta ''last_refresh'' d = None \<or>
      (\<exists>t. getMeta ''last_refresh'' d = Some t \<and> now - t \<ge> 75 * 86400000)) \<longrightarrow>
       refresh_check now file d = refreshVivinoData now file d \<and>
       (\<forall>arr d'. file = Seed arr \<and> run_upserts now (map (refresh_item now) arr) d = Inr d' \<longrightarrow>
          refresh_check now file d = setMeta ''last_refresh'' now d' \<and>
          getMeta ''last_refresh'' (refresh_check now file d) = Some now) \<and>
       (file = NoFile \<or> file = Unreadable \<or>
          (\<exists>arr e. file = Seed arr \<and> run_upserts now (map (refresh_item now) arr) d = Inl e) \<longrightarrow>
          refresh_check now file d = d))
   \<and> ((\<exists>t. getMeta ''last_refresh'' d = Some t \<and> now - t < 75 * 86400000) \<longrightarrow>
       refresh_check now file d = d)"
  by (auto simp: refresh_check_def refreshVivinoData_def getMeta_def setMeta_def day_diff_due Let_def)

theorem refresh_check_due_witness:
  "getMeta ''last_refresh'' refreshed_db = Some 0
   \<and> getMeta ''last_refresh'' (refresh_check 6480000000 (Seed [seed_x1]) refreshed_db) = Some 6480000000
   \<and> map name (wines (refresh_check 6480000000 (Seed [seed_x1]) refreshed_db)) = [''W1'']
   \<and> refresh_check 6479999999 (Seed [seed_x1]) refreshed_db = refreshed_db
   \<and> refresh_check 6393600000 (Seed [seed_x1]) refreshed_db = refreshed_db
   \<and> getMeta ''last_refresh'' empty_db = None
   \<and> getMeta ''last_refresh'' (refresh_check 5 (Seed [seed_x1]) empty_db) = Some 5"
proof -
  have g: "getMeta ''last_refresh'' refreshed_db = Some 0"
    by (simp add: scenario_defs getMeta_def setMeta_def)
  have g0: "getMeta ''last_refresh'' empty_db = None"
    by (simp add: scenario_defs getMeta_def)
  have due: "getMeta ''last_refresh'' refreshed_db = None \<or>
      (\<exists>t. getMeta ''last_refresh'' refreshed_db = Some t \<and> 6480000000 - t \<ge> 75 * 86400000)"
    using g by simp
  have due0: "getMeta ''last_refresh'' empty_db = None \<or>
      (\<exists>t. getMeta ''last_refresh'' empty_db = Some t \<and> 5 - t \<ge> 75 * 86400000)"
    using g0 by simp
  have early: "\<exists>t. getMeta ''last_refresh'' refreshed_db = Some t \<and> 6479999999 - t < 75 * 86400000"
    using g by simp
  have early': "\<exists>t. getMeta ''last_refresh'' refreshed_db = Some t \<and> 6393600000 - t < 75 * 86400000"
    using g by simp
  define w1 where "w1 = (\<lambda>t::int. \<lparr>id' = 1, external_id = Some ''x1'', name = ''W1'', winery = None,
      aoc = ''Pauillac'', vintage = None, vivino_rating = 4, rating_count = Some 0, price = None,
      last_source_update = Some t, created_at = t, updated_at = t\<rparr>)"
  have ru: "run_upserts t (map (refresh_item t) [seed_x1]) d = Inr (d\<lparr>wines := [w1 t]\<rparr>)"
    if "wines d = []" for t d
    using that
    by (simp add: refresh_item_def sanitizeNumber_def sanitizeNumber_null_def number_defs
          ingest_defs scenario_defs w1_def)
  note run = refresh_check_due[THEN conjunct1, rule_format, THEN conjunct2, THEN conjunct1, rule_format]
  have a: "refresh_check 6480000000 (Seed [seed_x1]) refreshed_db
             = setMeta ''last_refresh'' 6480000000 (refreshed_db\<lparr>wines := [w1 6480000000]\<rparr>)"
    using run[OF due, of "Seed [seed_x1]" "[seed_x1]"] ru[of refreshed_db 6480000000]
    by (simp add: scenario_defs setMeta_def)
  have b: "refresh_check 5 (Seed [seed_x1]) empty_db
             = setMeta ''last_refresh'' 5 (empty_db\<lparr>wines := [w1 5]\<rparr>)"
    using run[OF due0, of "Seed [seed_x1]" "[seed_x1]"] ru[of empty_db 5]
    by (simp add: scenario_defs)
  note skip = refresh_check_due[THEN conjunct2, rule_format]
  show ?thesis
    using g g0 a b skip[OF early, of "Seed [seed_x1]"] skip[OF early', of "Seed [seed_x1]"]
    by (simp add: getMeta_def setMeta_def w1_def)
qed

theorem refresh_check_due_counterexample:
  "getMeta ''last_refresh'' empty_db = None
   \<and> refresh_check 6480000000 NoFile empty_db = empty_db
   \<and> getMeta ''last_refresh'' (refresh_check 6480000000 NoFile empty_db) \<noteq> Some 6480000000
   \<and> refresh_check 6480000000 (Seed [seed_x1\<lparr>s_winery := Unbound\<rparr>]) empty_db = empty_db"
  by (simp add: refresh_check_def refreshVivinoData_def getMeta_def scenario_defs
        refresh_item_def upsertWine_def bindable_def)



text \<open>
  C9, as amended. \<^verbatim>\<open>GET /api/aocs\<close> answers with the distinct appellations of the
  catalogue in ascending order of their names. The statement behind it computes for
  each one the number of its wines, which is never 0, but the response carries the names
  only.
\<close>

theorem aocs_listing:
  "sorted (api_aocs d) \<and> distinct (api_aocs d) \<and> set (api_aocs d) = set (map aoc (wines d))
   \<and> api_aocs d = map fst (aoc_rows d)
   \<and> map snd (aoc_rows d) = map (\<lambda>a. length (filter (\<lambda>w. aoc w = a) (wines d))) (api_aocs d)
   \<and> set (map snd (aoc_rows d)) \<subseteq> {n. n > 0}"
  by (auto simp: api_aocs_def aoc_rows_def comp_def filter_empty_conv)

theorem aocs_listing_counterexample:
  "api_aocs db_AB = [''Margaux''] \<and> api_aocs db_A = [''Margaux'']
   \<and> aoc_rows db_AB = [(''Margaux'', 2)] \<and> aoc_rows db_A = [(''Margaux'', 1)]"
  by (simp add: api_aocs_def aoc_rows_def example_defs)

text \<open>
  C10. A limit whose number is 0 is no limit: whatever the offset, the response is the
  whole ranking, one row for every row of the join that the \<^verbatim>\<open>WHERE\<close> clause selects,
  as it is for a query with the \<^verbatim>\<open>all\<close> flag.
\<close>

theorem limit_zero_unbounded:
  assumes "rq_limit rq = Some s" and "s \<noteq> []" and "StringToNumber s = Fin 0"
  shows "api_wines (rq\<lparr>rq_offset := off\<rparr>) d = Inr (matching rq d)
       \<and> length (matching rq d) = length (filter (selected rq) (map (join_override d) (wines d)))
       \<and> set (matching rq d) = {r \<in> set (map (join_override d) (wines d)). selected rq r}
       \<and> (given (rq_all rq') \<noteq> None \<longrightarrow> api_wines rq' d = Inr (matching rq' d))"
proof -
  have "selected (rq\<lparr>rq_offset := off\<rparr>) = selected rq"
    by (rule ext) (simp add: selected_def)
  then have m: "matching (rq\<lparr>rq_offset := off\<rparr>) d = matching rq d"
    by (simp add: matching_def)
  have "api_wines (rq\<lparr>rq_offset := off\<rparr>) d = Inr (matching rq d)"
    using assms by (simp add: api_wines_def query_lim_def given_def Let_def m)
  moreover have "length (matching rq d) = length (filter (selected rq) (map (join_override d) (wines d)))"
    by (simp add: matching_def length_order_by)
  moreover have "set (matching rq d) = {r \<in> set (map (join_override d) (wines d)). selected rq r}"
    by (rule set_matching)
  moreover have "given (rq_all rq') \<noteq> None \<longrightarrow> api_wines rq' d = Inr (matching rq' d)"
    by (simp add: api_wines_def query_lim_def Let_def)
  ultimately show ?thesis by simp
qed

theorem limit_zero_unbounded_witness:
  "rq_limit (no_params\<lparr>rq_limit := Some ''0''\<rparr>) = Some ''0'' \<and> ''0'' \<noteq> [] \<and> StringToNumber ''0'' = Fin 0
   \<and> api_wines (no_params\<lparr>rq_limit := Some ''0'', rq_offset := Some ''1''\<rparr>) db_AB
        = Inr [join_override db_AB wine_B, join_override db_AB wine_A]"
proof -
  have h1: "rq_limit (no_params\<lparr>rq_limit := Some ''0''\<rparr>) = Some ''0''" by simp
  have h2: "''0'' \<noteq> []" by simp
  have h3: "StringToNumber ''0'' = Fin 0" by (simp add: number_defs)
  have m: "matching (no_params\<lparr>rq_limit := Some ''0''\<rparr>) db_AB
             = [join_override db_AB wine_B, join_override db_AB wine_A]"
    by (simp add: query_defs example_defs)
  show ?thesis
    using limit_zero_unbounded[OF h1 h2 h3, of "Some ''1''" db_AB] h3 m by simp
qed

end
